theory Spec2Isabelle
  imports Main "HOL-Library.Char_ord" "HOL-Library.List_Lexorder" "HOL-Library.Word"
begin

unbundle bit_operations_syntax

section \<open>The coordinator: a lock queue of wait files in a shared directory\<close>

text \<open>
  The development embeds \<^verbatim>\<open>coordinator.go\<close>: the \<^verbatim>\<open>Coordinator\<close> struct and its four
  methods \<^verbatim>\<open>WaitForFile\<close>, \<^verbatim>\<open>CreateWaitFile\<close>, \<^verbatim>\<open>WaitInLine\<close> and \<^verbatim>\<open>CutInLine\<close>.
  The file system, the fsnotify watcher and the context are the environment; they are
  made explicit as a state that every operation takes and returns, and as the inputs
  that the environment supplies to each wait cycle.

  Strings are compared as Go compares them, byte by byte: this is the order of
  \<^typ>\<open>char list\<close> given by the lexicographic order on lists over the order of characters.
\<close>

subsection \<open>Data\<close>

text \<open>A Go \<^verbatim>\<open>error\<close> value is identified with its message; \<^verbatim>\<open>nil\<close> is \<open>None\<close>.\<close>

datatype error = Err string

text \<open>\<^verbatim>\<open>type Coordinator struct { Dir string; FilePath string }\<close>\<close>

record Coordinator =
  Dir :: string
  FilePath :: string

text \<open>
  The state of the environment that the methods act on. One directory is modelled, the
  shared one: \<open>wdir\<close> is its path, as the coordinator writes it, and \<open>names\<close> the names
  of its entries. \<open>unreadable\<close> is the error
  that listing the directory meets, if any; \<open>deny\<close> gives, for a path, the error that
  removing it meets (permissions, a non-empty subdirectory). \<open>watchers\<close> lists the
  fsnotify watchers that are open, each named by the file path it was created for.
\<close>

record world =
  wdir :: string
  names :: "string list"
  unreadable :: "error option"
  deny :: "(string \<times> error) list"
  watchers :: "string list"

subsection \<open>Library functions the methods call\<close>

text \<open>
  \<^verbatim>\<open>path.Clean\<close>, as the Go library defines it: the path is cut at its slashes; empty
  elements and \<^verbatim>\<open>.\<close> elements are dropped; a \<^verbatim>\<open>..\<close> element removes the element before
  it, is dropped at the start of a rooted path, and is kept at the start of a path that
  is not rooted. The result of a rooted path starts with a slash, and an empty result is
  written \<^verbatim>\<open>.\<close>. The elements are kept on a stack, the last one first.
\<close>

fun splitOn :: "char \<Rightarrow> string \<Rightarrow> string list" where
  "splitOn c [] = [[]]"
| "splitOn c (x # xs) =
     (if x = c then [] # splitOn c xs
      else case splitOn c xs of
             [] \<Rightarrow> [[x]]
           | y # ys \<Rightarrow> (x # y) # ys)"

fun join_slash :: "string list \<Rightarrow> string" where
  "join_slash [] = []"
| "join_slash [x] = x"
| "join_slash (x # y # ys) = x @ ''/'' @ join_slash (y # ys)"

definition clean_step :: "bool \<Rightarrow> string list \<Rightarrow> string \<Rightarrow> string list" where
  "clean_step rooted stack c =
     (if c = [] \<or> c = ''.'' then stack
      else if c = ''..'' then
        (case stack of
           [] \<Rightarrow> if rooted then [] else [''..'']
         | e # rest \<Rightarrow> if e = ''..'' then ''..'' # stack else rest)
      else c # stack)"

definition clean_elems :: "string \<Rightarrow> string list" where
  "clean_elems p = rev (foldl (clean_step (hd p = CHR ''/'')) [] (splitOn CHR ''/'' p))"

definition path_Clean :: "string \<Rightarrow> string" where
  "path_Clean p =
     (if p = [] then ''.''
      else if hd p = CHR ''/'' then CHR ''/'' # join_slash (clean_elems p)
      else if clean_elems p = [] then ''.''
      else join_slash (clean_elems p))"

text \<open>
  \<^verbatim>\<open>path.Join(dir, name)\<close> joins the elements that are not empty with a slash and cleans
  the result; when both are empty the result is empty.
\<close>

definition path_Join :: "string \<Rightarrow> string \<Rightarrow> string" where
  "path_Join d n =
     (if d = [] \<and> n = [] then []
      else path_Clean (if d = [] then n else d @ ''/'' @ n))"

text \<open>
  The name of a directory entry is one path element: it is not empty, has no slash, and
  is neither \<^verbatim>\<open>.\<close> nor \<^verbatim>\<open>..\<close> (a listing leaves these two out). A directory holds a name
  at most once.
\<close>

definition valid_name :: "string \<Rightarrow> bool" where
  "valid_name n \<longleftrightarrow> n \<noteq> [] \<and> CHR ''/'' \<notin> set n \<and> n \<noteq> ''.'' \<and> n \<noteq> ''..''"

definition wellformed :: "world \<Rightarrow> bool" where
  "wellformed w \<longleftrightarrow> distinct (names w) \<and> (\<forall>n \<in> set (names w). valid_name n)"

text \<open>
  What \<^verbatim>\<open>path.Join\<close> puts before the name of an entry: the cleaned directory and a
  slash (nothing for an empty directory path or for \<^verbatim>\<open>.\<close>).
\<close>

definition dir_part :: "string \<Rightarrow> string" where
  "dir_part d =
     (if d = [] then []
      else (if hd d = CHR ''/'' then ''/'' else []) @
           (if clean_elems d = [] then [] else join_slash (clean_elems d) @ ''/''))"

text \<open>\<^verbatim>\<open>os.ReadDir\<close> returns the entries of the directory sorted by file name.\<close>

definition os_ReadDir :: "string \<Rightarrow> world \<Rightarrow> error + string list" where
  "os_ReadDir d w =
     (case unreadable w of
        Some e \<Rightarrow> Inl e
      | None \<Rightarrow>
          if d = wdir w then Inr (sort (names w))
          else Inl (Err ''no such file or directory''))"

text \<open>\<^verbatim>\<open>os.Remove\<close> removes the named entry, or fails and leaves the directory as it is.\<close>

definition os_Remove :: "string \<Rightarrow> world \<Rightarrow> error + world" where
  "os_Remove p w =
     (if p \<notin> set (map (path_Join (wdir w)) (names w))
      then Inl (Err ''no such file or directory'')
      else case map_of (deny w) p of
             Some e \<Rightarrow> Inl e
           | None \<Rightarrow> Inr (w\<lparr>names := filter (\<lambda>n. path_Join (wdir w) n \<noteq> p) (names w)\<rparr>))"

subsection \<open>CutInLine\<close>

text \<open>
  \<^verbatim>\<open>
  for _, f := range files {
      currentFileName := path.Join(co.Dir, f.Name())
      if currentFileName == co.FilePath { break }
      err := os.Remove(currentFileName)
      if err != nil { return err }
  }
  return nil
  \<close>
  The result is the error returned (\<open>None\<close> for \<^verbatim>\<open>nil\<close>) and the state left behind.
\<close>

fun cut_loop :: "Coordinator \<Rightarrow> string list \<Rightarrow> world \<Rightarrow> error option \<times> world" where
  "cut_loop co [] w = (None, w)"
| "cut_loop co (f # fs) w =
     (let currentFileName = path_Join (Dir co) f in
      if currentFileName = FilePath co then (None, w)
      else case os_Remove currentFileName w of
             Inl err \<Rightarrow> (Some err, w)
           | Inr w' \<Rightarrow> cut_loop co fs w')"

definition CutInLine :: "Coordinator \<Rightarrow> world \<Rightarrow> error option \<times> world" where
  "CutInLine co w =
     (case os_ReadDir (Dir co) w of
        Inl err \<Rightarrow> (Some err, w)
      | Inr files \<Rightarrow> cut_loop co files w)"

text \<open>The state after the entries \<open>gone\<close> have been removed and nothing else has changed.\<close>

definition without :: "string list \<Rightarrow> world \<Rightarrow> world" where
  "without gone w = w\<lparr>names := filter (\<lambda>n. n \<notin> set gone) (names w)\<rparr>"

text \<open>
  An entry that the loop of \<^verbatim>\<open>CutInLine\<close> passes over by removing it: it is not the
  caller's wait file and its removal is not refused.
\<close>

definition passes :: "Coordinator \<Rightarrow> world \<Rightarrow> string \<Rightarrow> bool" where
  "passes co w f \<longleftrightarrow>
     path_Join (Dir co) f \<noteq> FilePath co \<and> map_of (deny w) (path_Join (Dir co) f) = None"

subsection \<open>CreateWaitFile\<close>

text \<open>
  \<^verbatim>\<open>fmt.Sprintf("%d", n)\<close> for an \<^verbatim>\<open>int64\<close>: the decimal digits, with a minus sign for a
  negative number and no padding. \<^verbatim>\<open>time.Now().UnixNano()\<close> is an input, an integer
  between \<open>- 2 ^ 63\<close> and \<open>2 ^ 63 - 1\<close>.
\<close>

fun digits :: "nat \<Rightarrow> string" where
  "digits n =
     (if n < 10 then [char_of (48 + n)]
      else digits (n div 10) @ [char_of (48 + n mod 10)])"

declare digits.simps [simp del]

definition Sprintf_d :: "int \<Rightarrow> string" where
  "Sprintf_d i = (if i < 0 then CHR ''-'' # digits (nat (- i)) else digits (nat i))"

text \<open>\<^verbatim>\<open>namePattern := fmt.Sprintf("queuer-%d-*", time.Now().UnixNano())\<close>\<close>

definition namePattern :: "int \<Rightarrow> string" where
  "namePattern now = ''queuer-'' @ Sprintf_d now @ ''-*''"

text \<open>
  \<^verbatim>\<open>ioutil.TempFile(dir, pattern)\<close> splits the pattern at its last star into a prefix and
  a suffix (a pattern with no star is all prefix) and puts a random string between them.
  It tries again with the next random string while the name exists already, and gives up
  when it has run out of tries. The random strings it draws are the input \<open>rnds\<close>. The
  path of the file it returns is the directory and the name with one slash between
  them, and is not cleaned:
  \<^verbatim>\<open>
  func joinPath(dir, name string) string {
      if len(dir) > 0 && IsPathSeparator(dir[len(dir)-1]) { return dir + name }
      return dir + string(PathSeparator) + name
  }
  \<close>
\<close>

definition joinPath :: "string \<Rightarrow> string \<Rightarrow> string" where
  "joinPath d name = (if d \<noteq> [] \<and> last d = CHR ''/'' then d @ name else d @ ''/'' @ name)"

definition prefixAndSuffix :: "string \<Rightarrow> string \<times> string" where
  "prefixAndSuffix pattern =
     (if CHR ''*'' \<in> set pattern
      then (rev (tl (dropWhile (\<lambda>c. c \<noteq> CHR ''*'') (rev pattern))),
            rev (takeWhile (\<lambda>c. c \<noteq> CHR ''*'') (rev pattern)))
      else (pattern, []))"

definition tempName :: "string \<Rightarrow> string \<Rightarrow> string" where
  "tempName pattern rnd = (case prefixAndSuffix pattern of (prefix, suffix) \<Rightarrow> prefix @ rnd @ suffix)"

definition ioutil_TempFile :: "string \<Rightarrow> string \<Rightarrow> string list \<Rightarrow> world \<Rightarrow> error + string \<times> world" where
  "ioutil_TempFile d pattern rnds w =
     (if d \<noteq> wdir w then Inl (Err ''no such file or directory'')
      else case find (\<lambda>r. tempName pattern r \<notin> set (names w)) rnds of
             None \<Rightarrow> Inl (Err ''file exists'')
           | Some r \<Rightarrow>
               Inr (joinPath d (tempName pattern r),
                    w\<lparr>names := tempName pattern r # names w\<rparr>))"

text \<open>
  \<^verbatim>\<open>os.MkdirAll\<close>: the shared directory exists and stays as it is; the empty path names
  no directory, and no other directory can be made in the modelled file system.
\<close>

definition os_MkdirAll :: "string \<Rightarrow> world \<Rightarrow> error + world" where
  "os_MkdirAll d w =
     (if d = [] then Inl (Err ''no such file or directory'')
      else if d = wdir w then Inr w
      else Inl (Err ''permission denied''))"

text \<open>
  The method stores the path of the new file in \<^verbatim>\<open>co.FilePath\<close>; the model returns the
  updated struct. The file handle returned by the method is that same path.
\<close>

definition CreateWaitFile :: "Coordinator \<Rightarrow> int \<Rightarrow> string list \<Rightarrow> world \<Rightarrow> error + Coordinator \<times> world" where
  "CreateWaitFile co now rnds w =
     (case os_MkdirAll (Dir co) w of
        Inl err \<Rightarrow> Inl err
      | Inr w1 \<Rightarrow>
          (case ioutil_TempFile (Dir co) (namePattern now) rnds w1 of
             Inl err \<Rightarrow> Inl err
           | Inr (file, w2) \<Rightarrow> Inr (co\<lparr>FilePath := file\<rparr>, w2)))"

subsection \<open>WaitForFile\<close>

text \<open>
  An fsnotify event has a name and a set of operations, a bit mask of type \<^verbatim>\<open>uint32\<close>.
  The mask of a removal is the third bit, as fsnotify declares it
  (\<^verbatim>\<open>Create Op = 1 << iota; Write; Remove; Rename; Chmod\<close>).
\<close>

record Event =
  Name :: string
  Op :: "32 word"

definition fsnotify_Remove :: "32 word" where
  "fsnotify_Remove = 4"

definition zero_Event :: Event where
  "zero_Event = \<lparr>Name = [], Op = 0\<rparr>"

text \<open>
  What a receive from a channel yields: a value with \<^verbatim>\<open>ok = true\<close>, or, from a closed
  channel, the zero value with \<^verbatim>\<open>ok = false\<close>. A message is what one turn of the
  goroutine's \<^verbatim>\<open>select\<close> receives, from \<^verbatim>\<open>watcher.Events\<close> or from \<^verbatim>\<open>watcher.Errors\<close>.
\<close>

datatype 'a recv = Recv 'a | Closed

datatype msg = Events "Event recv" | Errors "error recv"

text \<open>
  One turn of the loop in the goroutine; the result lists the values that the turn
  sends on \<^verbatim>\<open>channel\<close>, in order (\<open>None\<close> is \<^verbatim>\<open>nil\<close>).
  \<^verbatim>\<open>
  case event, ok := <-watcher.Events:
      if event.Name != filePath { continue }
      if !ok { channel <- errors.New("fsnotify channel closed abruptly") }
      if event.Op&fsnotify.Remove == fsnotify.Remove { channel <- nil }
  case err, ok := <-watcher.Errors:
      if !ok { channel <- err }
  \<close>
\<close>

fun on_msg :: "string \<Rightarrow> msg \<Rightarrow> error option list" where
  "on_msg filePath (Events r) =
     (case (case r of Recv e \<Rightarrow> (e, True) | Closed \<Rightarrow> (zero_Event, False)) of
        (event, ok) \<Rightarrow>
          if Name event \<noteq> filePath then []
          else (if \<not> ok then [Some (Err ''fsnotify channel closed abruptly'')] else []) @
               (if Op event AND fsnotify_Remove = fsnotify_Remove then [None] else []))"
| "on_msg filePath (Errors r) =
     (case (case r of Recv e \<Rightarrow> (Some e, True) | Closed \<Rightarrow> (None, False)) of
        (err, ok) \<Rightarrow> if \<not> ok then [err] else [])"

text \<open>
  The goroutine never leaves its loop: it handles every message that arrives. A send
  on the channel completes when the other side receives it.
\<close>

definition goroutine :: "string \<Rightarrow> msg list \<Rightarrow> error option list" where
  "goroutine filePath ms = concat (map (on_msg filePath) ms)"

text \<open>
  The part of \<^verbatim>\<open>WaitForFile\<close> that runs in the caller: making the watcher and adding the
  path to it (the parent directory on Linux) can each fail, and the method then sends
  the error on the channel itself.
\<close>

datatype watcher_setup = SetupOk | NewWatcherFails error | AddFails error

text \<open>
  The result: the error that the method itself sends on the channel before it returns
  (if any), the values that its goroutine sends, and the state with the new watcher.
\<close>

definition WaitForFile :: "string \<Rightarrow> watcher_setup \<Rightarrow> msg list \<Rightarrow> world \<Rightarrow> error option \<times> error option list \<times> world" where
  "WaitForFile filePath su ms w =
     (case su of
        NewWatcherFails err \<Rightarrow> (Some err, [], w)
      | AddFails err \<Rightarrow> (Some err, goroutine filePath ms, w\<lparr>watchers := filePath # watchers w\<rparr>)
      | SetupOk \<Rightarrow> (None, goroutine filePath ms, w\<lparr>watchers := filePath # watchers w\<rparr>))"

definition watcher_Close :: "string \<Rightarrow> world \<Rightarrow> world" where
  "watcher_Close filePath w = w\<lparr>watchers := remove1 filePath (watchers w)\<rparr>"

subsection \<open>WaitInLine\<close>

text \<open>
  The inner loop over the listing, with the index \<open>i\<close> and the variable \<^verbatim>\<open>toWatch\<close>:
  \<^verbatim>\<open>
  for i, f := range files {
      if path.Join(co.Dir, f.Name()) != co.FilePath { continue }
      if i == 0 { log.Info("First in line."); return }
      toWatch = path.Join(co.Dir, files[i-1].Name())
  }
  \<close>
\<close>

datatype scan = FirstInLine | ToWatch string

function rank_loop :: "Coordinator \<Rightarrow> string list \<Rightarrow> nat \<Rightarrow> string \<Rightarrow> scan" where
  "rank_loop co files i toWatch =
     (if i < length files then
        (if path_Join (Dir co) (files ! i) \<noteq> FilePath co then rank_loop co files (i + 1) toWatch
         else if i = 0 then FirstInLine
         else rank_loop co files (i + 1) (path_Join (Dir co) (files ! (i - 1))))
      else ToWatch toWatch)"
  by pat_completeness auto
termination
  by (relation "measure (\<lambda>(co, files, i, toWatch). length files - i)") auto

declare rank_loop.simps [simp del]

text \<open>
  How a call ends. The method has no result: it returns after logging that the caller
  is first in line, returns when the context is done, or ends the process through
  \<^verbatim>\<open>log.Fatal\<close>. \<open>Blocked\<close> is a call that cannot go on: it sends on the channel with
  nobody to receive, or waits for an event that does not come. \<open>Pending\<close> is a call
  still in its loop when the inputs given to it are used up, and \<open>Continue\<close> a cycle
  that goes back to the start of the loop.
\<close>

datatype outcome = Holding | Cancelled | Fatal error | Blocked | Pending | Continue

text \<open>
  What the environment does around one cycle of the loop: the changes that other
  processes make to the directory before the cycle lists it, how the set-up of the
  watcher goes, the messages that reach the goroutine while the call waits, and which
  case of the \<^verbatim>\<open>select\<close> is taken (the case of \<^verbatim>\<open>ctx.Done()\<close> can be taken once the
  context is done).
\<close>

datatype change = Created string | Removed string

datatype select = TakeWatchChan | TakeDone

record round =
  changes :: "change list"
  watcher_setup :: watcher_setup
  msgs :: "msg list"
  sel :: select

fun apply_change :: "world \<Rightarrow> change \<Rightarrow> world" where
  "apply_change w (Created n) = (if n \<in> set (names w) then w else w\<lparr>names := n # names w\<rparr>)"
| "apply_change w (Removed n) = w\<lparr>names := removeAll n (names w)\<rparr>"

definition others :: "change list \<Rightarrow> world \<Rightarrow> world" where
  "others cs w = foldl apply_change w cs"

text \<open>
  From the call of \<^verbatim>\<open>WaitForFile\<close> to the end of the cycle. The channel is unbuffered
  and the method is called before the \<^verbatim>\<open>select\<close>, so an error that \<^verbatim>\<open>WaitForFile\<close> sends
  itself finds no receiver.
  \<^verbatim>\<open>
  watchChan := make(chan error)
  watcher := co.WaitForFile(toWatch, watchChan)
  select {
  case err := <-watchChan:
      if err != nil { log.Fatal(err) }
      break
  case <-ctx.Done():
      return
  }
  watcher.Close()
  \<close>
\<close>

definition await :: "string \<Rightarrow> round \<Rightarrow> world \<Rightarrow> outcome \<times> world" where
  "await toWatch r w =
     (case WaitForFile toWatch (watcher_setup r) (msgs r) w of
        (Some err, sends, w1) \<Rightarrow> (Blocked, w1)
      | (None, sends, w1) \<Rightarrow>
          (case sel r of
             TakeDone \<Rightarrow> (Cancelled, w1)
           | TakeWatchChan \<Rightarrow>
               (case sends of
                  [] \<Rightarrow> (Blocked, w1)
                | Some err # _ \<Rightarrow> (Fatal err, w1)
                | None # _ \<Rightarrow> (Continue, watcher_Close toWatch w1))))"

definition wait_cycle :: "Coordinator \<Rightarrow> round \<Rightarrow> world \<Rightarrow> outcome \<times> world" where
  "wait_cycle co r w =
     (case os_ReadDir (Dir co) w of
        Inl err \<Rightarrow> (Fatal err, w)
      | Inr files \<Rightarrow>
          (case rank_loop co files 0 [] of
             FirstInLine \<Rightarrow> (Holding, w)
           | ToWatch toWatch \<Rightarrow> await toWatch r w))"

fun WaitInLine :: "Coordinator \<Rightarrow> round list \<Rightarrow> world \<Rightarrow> outcome \<times> world" where
  "WaitInLine co [] w = (Pending, w)"
| "WaitInLine co (r # rs) w =
     (case wait_cycle co r (others (changes r) w) of
        (Continue, w') \<Rightarrow> WaitInLine co rs w'
      | res \<Rightarrow> res)"

subsection \<open>A queue of three wait files\<close>

text \<open>
  A directory with three wait files (stored in no particular order), the contender
  whose file is the second of them, and a coordinator whose recorded file is not in the
  directory. A second directory has a fourth file, which cannot be removed. A quiet
  round is one in which nothing happens while the call waits.
\<close>

definition queue3 :: world where
  "queue3 = \<lparr>wdir = ''/tmp/q'', names = [''queuer-20-7'', ''queuer-30-1'', ''queuer-10-5''],
     unreadable = None, deny = [], watchers = []\<rparr>"

definition queue4 :: world where
  "queue4 = \<lparr>wdir = ''/tmp/q'',
     names = [''queuer-20-7'', ''queuer-30-1'', ''queuer-10-5'', ''queuer-15-9''],
     unreadable = None, deny = [(''/tmp/q/queuer-15-9'', Err ''permission denied'')],
     watchers = []\<rparr>"

definition contender :: Coordinator where
  "contender = \<lparr>Dir = ''/tmp/q'', FilePath = ''/tmp/q/queuer-20-7''\<rparr>"

definition stranger :: Coordinator where
  "stranger = \<lparr>Dir = ''/tmp/q'', FilePath = ''/tmp/q/queuer-40-2''\<rparr>"

definition quiet :: round where
  "quiet = \<lparr>changes = [], watcher_setup = SetupOk, msgs = [], sel = TakeWatchChan\<rparr>"

section \<open>Properties\<close>

subsection \<open>Paths and removals\<close>

lemma splitOn_none: "c \<notin> set n \<Longrightarrow> splitOn c n = [n]"
  by (induction n) auto

lemma splitOn_not_Nil: "splitOn c xs \<noteq> []"
  by (induction xs) (auto split: list.splits)

lemma splitOn_snoc: "c \<notin> set n \<Longrightarrow> splitOn c (d @ c # n) = splitOn c d @ [n]"
  by (induction d) (auto simp: splitOn_none splitOn_not_Nil split: list.splits)

lemma join_slash_snoc:
  "join_slash (ys @ [n]) = (if ys = [] then n else join_slash ys @ ''/'' @ n)"
  by (induction ys rule: join_slash.induct) auto

lemma clean_step_valid: "valid_name n \<Longrightarrow> clean_step r st n = n # st"
  by (auto simp: clean_step_def valid_name_def)

lemma clean_elems_snoc:
  assumes "valid_name n" "d \<noteq> []"
  shows "clean_elems (d @ ''/'' @ n) = clean_elems d @ [n]"
proof -
  from assms(1) have "CHR ''/'' \<notin> set n" by (simp add: valid_name_def)
  then have "splitOn CHR ''/'' (d @ ''/'' @ n) = splitOn CHR ''/'' d @ [n]"
    using splitOn_snoc [of "CHR ''/''" n d] by simp
  moreover have "hd (d @ ''/'' @ n) = hd d" using assms(2) by simp
  ultimately show ?thesis
    using assms(1) by (simp add: clean_elems_def clean_step_valid)
qed

lemma valid_name_alone:
  assumes "valid_name n"
  shows "path_Clean n = n"
proof -
  from assms have n: "n \<noteq> []" "CHR ''/'' \<notin> set n" by (simp_all add: valid_name_def)
  then have "hd n \<noteq> CHR ''/''" by (cases n) auto
  moreover have "clean_elems n = [n]"
    using n assms by (simp add: clean_elems_def splitOn_none clean_step_valid)
  ultimately show ?thesis using n by (simp add: path_Clean_def)
qed

text \<open>The path of an entry is the directory part followed by the name of the entry.\<close>

lemma path_Join_valid:
  assumes "valid_name n"
  shows "path_Join d n = dir_part d @ n"
proof (cases "d = []")
  case True
  with assms show ?thesis
    by (simp add: path_Join_def dir_part_def valid_name_alone valid_name_def)
next
  case False
  from assms have n: "n \<noteq> []" by (simp add: valid_name_def)
  have el: "clean_elems (d @ ''/'' @ n) = clean_elems d @ [n]"
    using assms False by (rule clean_elems_snoc)
  have hd: "hd (d @ ''/'' @ n) = hd d" using False by simp
  have "path_Clean (d @ ''/'' @ n) = dir_part d @ n"
    using False n by (simp add: path_Clean_def dir_part_def el hd join_slash_snoc del: append.simps)
  with False show ?thesis by (simp add: path_Join_def)
qed

lemma path_Join_inj:
  "valid_name a \<Longrightarrow> valid_name b \<Longrightarrow> path_Join d a = path_Join d b \<Longrightarrow> a = b"
  by (simp add: path_Join_valid)

text \<open>Cleaning at work, and the directory of the examples.\<close>

lemma path_Join_examples:
  "path_Join ''/tmp/q/'' ''n'' = ''/tmp/q/n''"
  "path_Join ''./q'' ''n'' = ''q/n''"
  "path_Join ''a//b/../c/.'' ''n'' = ''a/c/n''"
  "path_Join ''/..'' ''n'' = ''/n''"
  "path_Join ''..'' ''n'' = ''../n''"
  "path_Join ''.'' ''n'' = ''n''"
  "path_Join [] ''n'' = ''n''"
  "path_Join ''/'' ''n'' = ''/n''"
  by (simp_all add: path_Join_def path_Clean_def clean_elems_def clean_step_def)

lemma path_Join_q: "valid_name n \<Longrightarrow> path_Join ''/tmp/q'' n = ''/tmp/q/'' @ n"
  by (simp add: path_Join_valid dir_part_def clean_elems_def clean_step_def)

text \<open>
  \<^verbatim>\<open>CreateWaitFile\<close> records the path that \<^verbatim>\<open>joinPath\<close> gives, and the scans of
  \<^verbatim>\<open>WaitInLine\<close> and \<^verbatim>\<open>CutInLine\<close> compare it with the path that \<^verbatim>\<open>path.Join\<close> gives. The
  two are the same when the directory path is clean, or clean but for one slash at its
  end. For a path such as \<^verbatim>\<open>./q\<close> they differ, and the scans do not find the file that
  \<^verbatim>\<open>CreateWaitFile\<close> has made.
\<close>

lemma joinPath_recognised:
  assumes "valid_name n"
    and "last d \<noteq> CHR ''/'' \<and> dir_part d = d @ ''/'' \<or>
         d \<noteq> [] \<and> last d = CHR ''/'' \<and> dir_part d = d"
  shows "joinPath d n = path_Join d n"
  using assms by (auto simp: joinPath_def path_Join_valid)

lemma joinPath_examples:
  "joinPath ''/tmp/q'' ''n'' = path_Join ''/tmp/q'' ''n''"
  "joinPath ''/tmp/q/'' ''n'' = path_Join ''/tmp/q/'' ''n''"
  "joinPath ''./q'' ''n'' = ''./q/n''"
  "path_Join ''./q'' ''n'' = ''q/n''"
  by (simp_all add: joinPath_def path_Join_def path_Clean_def clean_elems_def clean_step_def)

lemma without_Nil: "without [] w = w"
  by (simp add: without_def)

lemma without_Cons: "without gone (without [f] w) = without (f # gone) w"
  by (simp add: without_def conj_commute)

lemma without_fields:
  "wdir (without g w) = wdir w" "deny (without g w) = deny w"
  "unreadable (without g w) = unreadable w" "watchers (without g w) = watchers w"
  "names (without g w) = filter (\<lambda>n. n \<notin> set g) (names w)"
  by (simp_all add: without_def)

lemma os_Remove_present:
  assumes "n \<in> set (names w)" and "\<forall>m \<in> set (names w). valid_name m"
  shows "os_Remove (path_Join (wdir w) n) w =
           (case map_of (deny w) (path_Join (wdir w) n) of
              Some e \<Rightarrow> Inl e
            | None \<Rightarrow> Inr (without [n] w))"
proof -
  have "filter (\<lambda>m. path_Join (wdir w) m \<noteq> path_Join (wdir w) n) (names w) =
        filter (\<lambda>m. m \<notin> set [n]) (names w)"
    using assms by (intro filter_cong) (auto dest: path_Join_inj)
  with assms(1) show ?thesis
    by (simp add: os_Remove_def without_def split: option.splits)
qed

subsection \<open>The loop of CutInLine\<close>

text \<open>
  The loop removes the entries of the listing for as long as they are not the caller's
  file and their removal succeeds. It ends at the first entry that is the caller's file
  (with \<^verbatim>\<open>nil\<close>) or whose removal fails (with that error), or at the end of the listing.
\<close>

lemma cut_loop_eq:
  assumes "Dir co = wdir w" "distinct fs" "set fs \<subseteq> set (names w)"
    and "\<forall>m \<in> set (names w). valid_name m"
  shows "cut_loop co fs w =
           (case dropWhile (passes co w) fs of
              [] \<Rightarrow> None
            | f # _ \<Rightarrow> if path_Join (Dir co) f = FilePath co then None
                       else map_of (deny w) (path_Join (Dir co) f),
            without (takeWhile (passes co w) fs) w)"
  using assms
proof (induction fs arbitrary: w)
  case Nil
  then show ?case by (simp add: without_Nil)
next
  case (Cons f fs)
  show ?case
  proof (cases "passes co w f")
    case False
    with Cons.prems show ?thesis
      by (auto simp: passes_def without_Nil os_Remove_present split: option.splits)
  next
    case True
    let ?w = "without [f] w"
    from True Cons.prems have rm: "os_Remove (path_Join (Dir co) f) w = Inr ?w"
      by (simp add: passes_def os_Remove_present)
    have "Dir co = wdir ?w" "distinct fs" "set fs \<subseteq> set (names ?w)"
      "\<forall>m \<in> set (names ?w). valid_name m"
      using Cons.prems by (auto simp: without_fields)
    from Cons.IH [OF this] have "cut_loop co fs ?w =
           (case dropWhile (passes co ?w) fs of
              [] \<Rightarrow> None
            | f # _ \<Rightarrow> if path_Join (Dir co) f = FilePath co then None
                       else map_of (deny ?w) (path_Join (Dir co) f),
            without (takeWhile (passes co ?w) fs) ?w)" .
    moreover have "passes co ?w = passes co w"
      by (simp add: passes_def fun_eq_iff without_fields)
    moreover have "path_Join (Dir co) f \<noteq> FilePath co"
      using True by (simp add: passes_def)
    ultimately show ?thesis
      using True rm by (simp add: without_Cons without_fields cong: list.case_cong if_cong)
  qed
qed

lemma CutInLine_eq:
  assumes "Dir co = wdir w" "wellformed w" "unreadable w = None"
  shows "CutInLine co w =
           (case dropWhile (passes co w) (sort (names w)) of
              [] \<Rightarrow> None
            | f # _ \<Rightarrow> if path_Join (Dir co) f = FilePath co then None
                       else map_of (deny w) (path_Join (Dir co) f),
            without (takeWhile (passes co w) (sort (names w))) w)"
  using assms cut_loop_eq [of co w "sort (names w)"]
  by (simp add: CutInLine_def os_ReadDir_def wellformed_def)




text \<open>
  C7. When a removal that \<^verbatim>\<open>CutInLine\<close> performs fails, it returns that error at once:
  if the listing is \<open>pre @ f # post\<close>, the loop has removed the entries \<open>pre\<close> and the
  removal of \<open>f\<close> (which is not the caller's file) fails with \<open>e\<close>, then the call returns
  \<open>e\<close>, the entries \<open>pre\<close> are gone, and \<open>f\<close> and everything after it in the listing,
  the caller's own file included, are still in the directory.
\<close>

theorem CutInLine_partial_failure:
  assumes wf: "wellformed w" and dir: "Dir co = wdir w"
    and listing: "os_ReadDir (Dir co) w = Inr (pre @ f # post)"
    and before: "\<forall>n \<in> set pre. passes co w n"
    and notown: "path_Join (Dir co) f \<noteq> FilePath co"
    and fails: "os_Remove (path_Join (Dir co) f) (without pre w) = Inl e"
  shows "CutInLine co w = (Some e, without pre w) \<and>
         names (without pre w) = filter (\<lambda>n. n \<notin> set pre) (names w) \<and>
         (\<forall>n \<in> set (f # post). n \<in> set (names (without pre w)))"
proof -
  let ?P = "passes co w"
  from wf have dist: "distinct (names w)" and valid: "\<forall>m \<in> set (names w). valid_name m"
    by (simp_all add: wellformed_def)
  from listing have rd: "unreadable w = None" and fs: "sort (names w) = pre @ f # post"
    by (auto simp: os_ReadDir_def split: option.splits if_splits)
  have dfs: "distinct (pre @ f # post)" using dist fs by (metis distinct_sort)
  have sub: "set (pre @ f # post) = set (names w)" using fs by (metis set_sort)
  have fin: "f \<in> set (names (without pre w))"
    using dfs sub by (auto simp: without_fields)
  with fails dir valid have den: "map_of (deny w) (path_Join (Dir co) f) = Some e"
    using os_Remove_present [of f "without pre w"]
    by (auto simp: without_fields split: option.splits)
  then have nf: "\<not> ?P f" by (simp add: passes_def)
  have tw: "takeWhile ?P (pre @ f # post) = pre"
    using before nf by simp
  have dw: "dropWhile ?P (pre @ f # post) = f # post"
    using before nf by simp
  have "CutInLine co w = (Some e, without pre w)"
    using CutInLine_eq [OF dir wf rd] fs tw dw notown den by simp
  moreover have "\<forall>n \<in> set (f # post). n \<in> set (names (without pre w))"
    using dfs sub by (auto simp: without_fields)
  ultimately show ?thesis by (simp add: without_fields)
qed

text \<open>
  In the directory of four, the first file is removed, the removal of the second is
  refused, and the call returns that error; three files are left.
\<close>

theorem CutInLine_partial_failure_witness:
  "os_ReadDir (Dir contender) queue4 =
     Inr ([''queuer-10-5''] @ ''queuer-15-9'' # [''queuer-20-7'', ''queuer-30-1'']) \<and>
   passes contender queue4 ''queuer-10-5'' \<and>
   os_Remove (path_Join (Dir contender) ''queuer-15-9'') (without [''queuer-10-5''] queue4) =
     Inl (Err ''permission denied'') \<and>
   CutInLine contender queue4 =
     (Some (Err ''permission denied''),
      queue4\<lparr>names := [''queuer-20-7'', ''queuer-30-1'', ''queuer-15-9'']\<rparr>)"
proof -
  have h1: "wellformed queue4" by (simp add: wellformed_def valid_name_def queue4_def)
  have h2: "Dir contender = wdir queue4" by (simp add: queue4_def contender_def)
  have h3: "os_ReadDir (Dir contender) queue4 =
     Inr ([''queuer-10-5''] @ ''queuer-15-9'' # [''queuer-20-7'', ''queuer-30-1''])"
    by (simp add: os_ReadDir_def queue4_def contender_def)
  have p: "passes contender queue4 ''queuer-10-5''"
    by (simp add: passes_def queue4_def contender_def path_Join_q valid_name_def)
  then have h4: "\<forall>n \<in> set [''queuer-10-5'']. passes contender queue4 n" by simp
  have h5: "path_Join (Dir contender) ''queuer-15-9'' \<noteq> FilePath contender"
    by (simp add: contender_def path_Join_q valid_name_def)
  have h6: "os_Remove (path_Join (Dir contender) ''queuer-15-9'') (without [''queuer-10-5''] queue4) =
     Inl (Err ''permission denied'')"
    by (simp add: os_Remove_def without_def queue4_def contender_def path_Join_q valid_name_def)
  have w: "without [''queuer-10-5''] queue4 =
     queue4\<lparr>names := [''queuer-20-7'', ''queuer-30-1'', ''queuer-15-9'']\<rparr>"
    by (simp add: without_def queue4_def)
  from CutInLine_partial_failure [OF h1 h2 h3 h4 h5 h6] h3 p h6 w
  show ?thesis by simp
qed

text \<open>
  C10. When the path recorded as the caller's own wait file is not among the entries of
  the directory, the loop of \<^verbatim>\<open>CutInLine\<close> never meets its stop condition. If no
  removal is refused the call removes every entry of the directory and returns \<^verbatim>\<open>nil\<close>.
  In general a \<^verbatim>\<open>nil\<close> return leaves the directory empty, and the only other way for
  the loop to end is the error return of a removal that fails, with the entries before
  the failing one removed.
\<close>

theorem CutInLine_marker_absent:
  assumes wf: "wellformed w" and dir: "Dir co = wdir w"
    and rd: "unreadable w = None"
    and absent: "FilePath co \<notin> set (map (path_Join (Dir co)) (names w))"
  shows "((\<forall>n \<in> set (names w). map_of (deny w) (path_Join (Dir co) n) = None) \<longrightarrow>
            CutInLine co w = (None, w\<lparr>names := []\<rparr>)) \<and>
         (case CutInLine co w of
            (None, w') \<Rightarrow> w' = w\<lparr>names := []\<rparr>
          | (Some e, w') \<Rightarrow>
              (\<exists>pre f post. sort (names w) = pre @ f # post \<and>
                 os_Remove (path_Join (Dir co) f) (without pre w) = Inl e \<and>
                 w' = without pre w))"
proof -
  let ?fs = "sort (names w)"
  let ?P = "passes co w"
  from wf have dist: "distinct (names w)" and valid: "\<forall>m \<in> set (names w). valid_name m"
    by (simp_all add: wellformed_def)
  note eq = CutInLine_eq [OF dir wf rd]
  have notown: "\<And>n. n \<in> set ?fs \<Longrightarrow> path_Join (Dir co) n \<noteq> FilePath co"
    using absent by force
  have all: "CutInLine co w = (None, w\<lparr>names := []\<rparr>)" if "dropWhile ?P ?fs = []"
  proof -
    from that have tw: "takeWhile ?P ?fs = ?fs"
      by (metis append_Nil2 takeWhile_dropWhile_id)
    have "without ?fs w = w\<lparr>names := []\<rparr>"
      by (simp add: without_def)
    then have "without (takeWhile ?P ?fs) w = w\<lparr>names := []\<rparr>"
      by (simp only: tw)
    with eq that show ?thesis by simp
  qed
  have first: "CutInLine co w = (None, w\<lparr>names := []\<rparr>)"
    if free: "\<forall>n \<in> set (names w). map_of (deny w) (path_Join (Dir co) n) = None"
  proof (rule all)
    from free notown have "\<forall>n \<in> set ?fs. ?P n" by (simp add: passes_def)
    then show "dropWhile ?P ?fs = []" by simp
  qed
  have second: "case CutInLine co w of
            (None, w') \<Rightarrow> w' = w\<lparr>names := []\<rparr>
          | (Some e, w') \<Rightarrow>
              (\<exists>pre f post. sort (names w) = pre @ f # post \<and>
                 os_Remove (path_Join (Dir co) f) (without pre w) = Inl e \<and>
                 w' = without pre w)"
  proof (cases "dropWhile ?P ?fs")
    case Nil
    with all show ?thesis by simp
  next
    case (Cons f post)
    define pre where "pre = takeWhile ?P ?fs"
    have split: "?fs = pre @ f # post"
      using takeWhile_dropWhile_id [of ?P ?fs] Cons by (simp add: pre_def)
    have nf: "\<not> ?P f" using hd_dropWhile [of ?P ?fs] Cons by auto
    have dfs: "distinct (pre @ f # post)" using dist split by (metis distinct_sort)
    have sub: "set (pre @ f # post) = set (names w)" using split by (metis set_sort)
    have "f \<in> set ?fs" using sub by auto
    with notown have no: "path_Join (Dir co) f \<noteq> FilePath co" by blast
    with nf obtain e where den: "map_of (deny w) (path_Join (Dir co) f) = Some e"
      by (auto simp: passes_def)
    have "f \<in> set (names (without pre w))"
      using dfs sub by (auto simp: without_fields)
    then have rm: "os_Remove (path_Join (Dir co) f) (without pre w) = Inl e"
      using os_Remove_present [of f "without pre w"] den dir valid
      by (simp add: without_fields)
    have "CutInLine co w = (Some e, without pre w)"
      using eq Cons no den by (simp add: pre_def)
    with rm split show ?thesis by auto
  qed
  from first second show ?thesis by blast
qed

text \<open>
  A coordinator whose recorded file is not in the queue of three empties the directory.
\<close>

theorem CutInLine_marker_absent_witness:
  "wellformed queue3 \<and> Dir stranger = wdir queue3 \<and> unreadable queue3 = None \<and>
   FilePath stranger \<notin> set (map (path_Join (Dir stranger)) (names queue3)) \<and>
   CutInLine stranger queue3 = (None, queue3\<lparr>names := []\<rparr>)"
proof -
  have h1: "wellformed queue3" by (simp add: wellformed_def valid_name_def queue3_def)
  have h2: "Dir stranger = wdir queue3" by (simp add: queue3_def stranger_def)
  have h3: "unreadable queue3 = None" by (simp add: queue3_def)
  have h4: "FilePath stranger \<notin> set (map (path_Join (Dir stranger)) (names queue3))"
    by (simp add: queue3_def stranger_def path_Join_q valid_name_def)
  have free: "\<forall>n \<in> set (names queue3). map_of (deny queue3) (path_Join (Dir stranger) n) = None"
    by (simp add: queue3_def)
  from CutInLine_marker_absent [OF h1 h2 h3 h4] free
  have "CutInLine stranger queue3 = (None, queue3\<lparr>names := []\<rparr>)"
    by blast
  with h1 h2 h3 h4 show ?thesis by simp
qed

subsection \<open>The rank scan of WaitInLine\<close>

lemma rank_loop_no_match:
  "(\<And>k. i \<le> k \<Longrightarrow> k < length files \<Longrightarrow> path_Join (Dir co) (files ! k) \<noteq> FilePath co)
   \<Longrightarrow> rank_loop co files i toWatch = ToWatch toWatch"
proof (induction co files i toWatch rule: rank_loop.induct)
  case (1 co files i toWatch)
  show ?case
  proof (cases "i < length files")
    case False
    then show ?thesis by (simp add: rank_loop.simps [of co files i toWatch])
  next
    case True
    then have ne: "path_Join (Dir co) (files ! i) \<noteq> FilePath co"
      using "1.prems" by simp
    have "rank_loop co files (i + 1) toWatch = ToWatch toWatch"
      using "1.IH"(1) [OF True ne] "1.prems" by simp
    with True ne show ?thesis by (simp add: rank_loop.simps [of co files i toWatch])
  qed
qed

lemma rank_loop_match:
  assumes "i < length files" "path_Join (Dir co) (files ! i) = FilePath co"
    and "\<And>k. k < length files \<Longrightarrow> k \<noteq> i \<Longrightarrow> path_Join (Dir co) (files ! k) \<noteq> FilePath co"
  shows "j \<le> i \<Longrightarrow> rank_loop co files j toWatch =
           (if i = 0 then FirstInLine else ToWatch (path_Join (Dir co) (files ! (i - 1))))"
proof (induction "i - j" arbitrary: j toWatch)
  case 0
  then have j: "j = i" by simp
  show ?case
  proof (cases "i = 0")
    case True
    with assms j show ?thesis by (simp add: rank_loop.simps [of co files 0 toWatch])
  next
    case False
    have "rank_loop co files (i + 1) (path_Join (Dir co) (files ! (i - 1))) =
            ToWatch (path_Join (Dir co) (files ! (i - 1)))"
      by (rule rank_loop_no_match) (use assms(3) in auto)
    with assms False j show ?thesis by (simp add: rank_loop.simps [of co files i toWatch])
  qed
next
  case (Suc d)
  then have lt: "j < i" by simp
  with assms have ne: "path_Join (Dir co) (files ! j) \<noteq> FilePath co" and jl: "j < length files"
    by auto
  have "rank_loop co files (j + 1) toWatch =
          (if i = 0 then FirstInLine else ToWatch (path_Join (Dir co) (files ! (i - 1))))"
    using Suc.hyps(1) [of "j + 1" toWatch] Suc.hyps(2) lt by simp
  with ne jl show ?case by (simp add: rank_loop.simps [of co files j toWatch])
qed

lemma rank_loop_present:
  assumes "distinct files" "i < length files" "path_Join (Dir co) (files ! i) = FilePath co"
    and "\<forall>n \<in> set files. valid_name n"
  shows "rank_loop co files 0 [] =
           (if i = 0 then FirstInLine else ToWatch (path_Join (Dir co) (files ! (i - 1))))"
proof (rule rank_loop_match [OF assms(2,3)])
  fix k assume k: "k < length files" "k \<noteq> i"
  with assms(1,2) have "files ! k \<noteq> files ! i" by (simp add: nth_eq_iff_index_eq)
  moreover have "valid_name (files ! k)" "valid_name (files ! i)"
    using assms(2,4) k by simp_all
  ultimately show "path_Join (Dir co) (files ! k) \<noteq> FilePath co"
    using assms(3) path_Join_inj [of "files ! k" "files ! i" "Dir co"] by auto
qed simp

lemma rank_loop_absent:
  assumes "FilePath co \<notin> set (map (path_Join (Dir co)) files)"
  shows "rank_loop co files 0 [] = ToWatch []"
proof (rule rank_loop_no_match)
  fix k assume "k < length files"
  then have "path_Join (Dir co) (files ! k) \<in> set (map (path_Join (Dir co)) files)"
    by simp
  with assms show "path_Join (Dir co) (files ! k) \<noteq> FilePath co" by metis
qed


text \<open>The scan on the two listings that the examples meet.\<close>

lemma contender_fields:
  "Dir contender = ''/tmp/q''" "FilePath contender = ''/tmp/q/queuer-20-7''"
  by (simp_all add: contender_def)

lemma rank_loop_second:
  "rank_loop contender [''queuer-10-5'', ''queuer-20-7'', ''queuer-30-1''] 0 [] =
     ToWatch ''/tmp/q/queuer-10-5''"
  using rank_loop_present [of "[''queuer-10-5'', ''queuer-20-7'', ''queuer-30-1'']" 1 contender]
  by (simp add: contender_def path_Join_q valid_name_def)

lemma rank_loop_cut:
  "rank_loop contender [''queuer-30-1''] 0 [] = ToWatch []"
  using rank_loop_absent [of contender "[''queuer-30-1'']"]
  by (simp add: contender_def path_Join_q valid_name_def)

subsection \<open>The wait loop\<close>

text \<open>
  The cycle after a scan that ended with a path to watch, written out: the watcher is
  opened for that path, and the cycle ends as the set-up of the watcher, the case taken
  by the \<^verbatim>\<open>select\<close>, and the first value that the goroutine sends for that path decide.
\<close>

lemma WaitInLine_after_scan:
  assumes "os_ReadDir (Dir co) (others (changes r) w) = Inr files"
    and "rank_loop co files 0 [] = ToWatch p"
  shows "WaitInLine co (r # rs) w =
           (let w0 = others (changes r) w;
                w1 = w0\<lparr>watchers := p # watchers w0\<rparr>
            in case watcher_setup r of
                 NewWatcherFails e \<Rightarrow> (Blocked, w0)
               | AddFails e \<Rightarrow> (Blocked, w1)
               | SetupOk \<Rightarrow>
                   (case sel r of
                      TakeDone \<Rightarrow> (Cancelled, w1)
                    | TakeWatchChan \<Rightarrow>
                        (case goroutine p (msgs r) of
                           [] \<Rightarrow> (Blocked, w1)
                         | Some e # _ \<Rightarrow> (Fatal e, w1)
                         | None # _ \<Rightarrow> WaitInLine co rs w0)))"
  using assms
  by (simp add: wait_cycle_def await_def WaitForFile_def watcher_Close_def Let_def
      split: watcher_setup.splits select.splits list.splits option.splits)



text \<open>
  C4, as the code has it. The method has no result and no error for a missing own file:
  when the recorded path is not the path of any entry of the listing, the scan leaves
  \<^verbatim>\<open>toWatch\<close> empty, and the call opens a watcher for the empty path and waits on it as
  on any other path. It returns when the \<^verbatim>\<open>select\<close> takes the case of the done context,
  lists the directory again when it receives \<^verbatim>\<open>nil\<close>, ends the process through
  \<^verbatim>\<open>log.Fatal\<close> when it receives an error, and stays blocked when the goroutine sends
  nothing for the empty path or the set-up of the watcher fails.
\<close>

theorem WaitInLine_marker_absent:
  assumes "os_ReadDir (Dir co) (others (changes r) w) = Inr files"
    and "FilePath co \<notin> set (map (path_Join (Dir co)) files)"
  shows "WaitInLine co (r # rs) w =
           (let w0 = others (changes r) w;
                w1 = w0\<lparr>watchers := [] # watchers w0\<rparr>
            in case watcher_setup r of
                 NewWatcherFails e \<Rightarrow> (Blocked, w0)
               | AddFails e \<Rightarrow> (Blocked, w1)
               | SetupOk \<Rightarrow>
                   (case sel r of
                      TakeDone \<Rightarrow> (Cancelled, w1)
                    | TakeWatchChan \<Rightarrow>
                        (case goroutine [] (msgs r) of
                           [] \<Rightarrow> (Blocked, w1)
                         | Some e # _ \<Rightarrow> (Fatal e, w1)
                         | None # _ \<Rightarrow> WaitInLine co rs w0)))"
  using assms(1) rank_loop_absent [OF assms(2)]
  by (rule WaitInLine_after_scan)

text \<open>
  The coordinator whose file is not in the queue of three, with the context done: the
  call returns, having opened a watch on the empty path.
\<close>

theorem WaitInLine_marker_absent_witness:
  "os_ReadDir (Dir stranger) queue3 = Inr [''queuer-10-5'', ''queuer-20-7'', ''queuer-30-1''] \<and>
   FilePath stranger \<notin> set (map (path_Join (Dir stranger))
     [''queuer-10-5'', ''queuer-20-7'', ''queuer-30-1'']) \<and>
   WaitInLine stranger [quiet\<lparr>sel := TakeDone\<rparr>] queue3 = (Cancelled, queue3\<lparr>watchers := [[]]\<rparr>)"
proof -
  let ?r = "quiet\<lparr>sel := TakeDone\<rparr>"
  have o: "others (changes ?r) queue3 = queue3" by (simp add: others_def quiet_def)
  have h1: "os_ReadDir (Dir stranger) (others (changes ?r) queue3) =
      Inr [''queuer-10-5'', ''queuer-20-7'', ''queuer-30-1'']"
    by (simp add: os_ReadDir_def others_def quiet_def queue3_def stranger_def)
  have h2: "FilePath stranger \<notin> set (map (path_Join (Dir stranger))
      [''queuer-10-5'', ''queuer-20-7'', ''queuer-30-1''])"
    by (simp add: stranger_def path_Join_q valid_name_def)
  have s: "watcher_setup ?r = SetupOk" "sel ?r = TakeDone" by (simp_all add: quiet_def)
  have "WaitInLine stranger [?r] queue3 = (Cancelled, queue3\<lparr>watchers := [[]]\<rparr>)"
    using WaitInLine_marker_absent [OF h1 h2, of "[]"] s o by (simp add: Let_def queue3_def)
  with o h1 h2 show ?thesis by simp
qed

text \<open>
  C4, as it is stated, fails. While the contender waits, a cutter removes the first file
  and the contender's own. The call does not end with an error: it opens a watch on the
  empty path and blocks there.
\<close>

theorem WaitInLine_self_missing_blocks:
  "WaitInLine contender
     [quiet\<lparr>changes := [Removed ''queuer-10-5'', Removed ''queuer-20-7'']\<rparr>] queue3 =
     (Blocked, queue3\<lparr>names := [''queuer-30-1''], watchers := [[]]\<rparr>)"
  by (simp add: wait_cycle_def os_ReadDir_def others_def rank_loop_cut await_def
      WaitForFile_def goroutine_def quiet_def queue3_def contender_fields)

text \<open>
  C5, as the code has it. A failure met in the loop is not returned to the caller. When
  listing the directory fails, and when the value received from the watch channel is an
  error, the call logs the error and ends the host process through \<^verbatim>\<open>log.Fatal\<close>.
\<close>

theorem WaitInLine_fatal:
  "(os_ReadDir (Dir co) (others (changes r) w) = Inl e \<longrightarrow>
      WaitInLine co (r # rs) w = (Fatal e, others (changes r) w)) \<and>
   (os_ReadDir (Dir co) (others (changes r) w) = Inr files \<and>
    rank_loop co files 0 [] = ToWatch toWatch \<and>
    watcher_setup r = SetupOk \<and> sel r = TakeWatchChan \<and>
    goroutine toWatch (msgs r) = Some e # rest \<longrightarrow>
      WaitInLine co (r # rs) w =
        (Fatal e, (others (changes r) w)\<lparr>watchers := toWatch # watchers (others (changes r) w)\<rparr>))"
  by (simp add: wait_cycle_def await_def WaitForFile_def)

text \<open>
  Both failures: a directory that cannot be listed, and a closed events channel that the
  goroutine reports while it watches the empty path.
\<close>

theorem WaitInLine_fatal_witness:
  "os_ReadDir (Dir contender) (queue3\<lparr>unreadable := Some (Err ''permission denied'')\<rparr>) =
     Inl (Err ''permission denied'') \<and>
   WaitInLine contender [quiet] (queue3\<lparr>unreadable := Some (Err ''permission denied'')\<rparr>) =
     (Fatal (Err ''permission denied''), queue3\<lparr>unreadable := Some (Err ''permission denied'')\<rparr>) \<and>
   goroutine [] [Events Closed] = [Some (Err ''fsnotify channel closed abruptly'')] \<and>
   WaitInLine stranger [quiet\<lparr>msgs := [Events Closed]\<rparr>] queue3 =
     (Fatal (Err ''fsnotify channel closed abruptly''), queue3\<lparr>watchers := [[]]\<rparr>)"
proof -
  let ?w = "queue3\<lparr>unreadable := Some (Err ''permission denied'')\<rparr>"
  let ?r = "quiet\<lparr>msgs := [Events Closed]\<rparr>"
  have o1: "others (changes quiet) ?w = ?w" by (simp add: others_def quiet_def)
  have o2: "others (changes ?r) queue3 = queue3" by (simp add: others_def quiet_def)
  have a: "os_ReadDir (Dir contender) (others (changes quiet) ?w) = Inl (Err ''permission denied'')"
    by (simp add: os_ReadDir_def others_def quiet_def queue3_def)
  have b1: "os_ReadDir (Dir stranger) (others (changes ?r) queue3) =
      Inr [''queuer-10-5'', ''queuer-20-7'', ''queuer-30-1'']"
    by (simp add: os_ReadDir_def others_def quiet_def queue3_def stranger_def)
  have b2: "rank_loop stranger [''queuer-10-5'', ''queuer-20-7'', ''queuer-30-1''] 0 [] = ToWatch []"
    by (rule rank_loop_absent) (simp add: stranger_def path_Join_q valid_name_def)
  have b3: "watcher_setup ?r = SetupOk" "sel ?r = TakeWatchChan" by (simp_all add: quiet_def)
  have b4: "goroutine [] (msgs ?r) = Some (Err ''fsnotify channel closed abruptly'') # []"
    by (simp add: goroutine_def zero_Event_def fsnotify_Remove_def)
  have first: "WaitInLine contender [quiet] ?w = (Fatal (Err ''permission denied''), ?w)"
    using WaitInLine_fatal [of contender quiet ?w "Err ''permission denied''" "[]"] a o1
    by simp
  have second: "WaitInLine stranger [?r] queue3 =
      (Fatal (Err ''fsnotify channel closed abruptly''), queue3\<lparr>watchers := [[]]\<rparr>)"
    using WaitInLine_fatal [of stranger ?r queue3 "Err ''fsnotify channel closed abruptly''" "[]"
        "[''queuer-10-5'', ''queuer-20-7'', ''queuer-30-1'']" "[]" "[]"] b1 b2 b3 b4 o2
    by (simp add: queue3_def)
  from a o1 first b4 second show ?thesis by simp
qed

text \<open>
  C5, as it is stated, fails: when the directory cannot be listed, the call does not
  return an error but ends the process.
\<close>

theorem WaitInLine_listing_failure_is_fatal:
  "fst (WaitInLine contender [quiet] (queue3\<lparr>unreadable := Some (Err ''permission denied'')\<rparr>)) =
     Fatal (Err ''permission denied'')"
  by (simp add: wait_cycle_def os_ReadDir_def others_def quiet_def queue3_def)

text \<open>
  C8 at the input where the code departs from it. The contender is second in the queue
  of three and the context is done while it waits on the first file. The call returns
  through the \<^verbatim>\<open>ctx.Done()\<close> case, which does not reach \<^verbatim>\<open>watcher.Close()\<close>: the watcher
  opened for this cycle is still open after the call.
\<close>

theorem cancelled_wait_keeps_watcher:
  "WaitInLine contender [quiet\<lparr>sel := TakeDone\<rparr>] queue3 =
     (Cancelled, queue3\<lparr>watchers := [''/tmp/q/queuer-10-5'']\<rparr>)"
  by (simp add: wait_cycle_def os_ReadDir_def others_def rank_loop_second await_def
      WaitForFile_def goroutine_def quiet_def queue3_def contender_fields)

text \<open>No cycle of the loop changes the directory, however it ends.\<close>

lemma wait_cycle_names: "names (snd (wait_cycle co r w)) = names w"
  by (simp add: wait_cycle_def await_def WaitForFile_def watcher_Close_def
      split: sum.splits scan.splits watcher_setup.splits select.splits list.splits option.splits)

text \<open>
  A call that waits in its \<^verbatim>\<open>select\<close> (the directory was listed, the caller is not
  first, the watcher is set up) and takes the \<^verbatim>\<open>ctx.Done()\<close> case returns, and the
  directory is the one it listed: no entry has been created or removed. Only the list
  of open watchers differs.
\<close>

lemma cancel_in_select:
  assumes "os_ReadDir (Dir co) (others (changes r) w) = Inr files"
    and "rank_loop co files 0 [] = ToWatch toWatch"
    and "watcher_setup r = SetupOk" and "sel r = TakeDone"
  shows "WaitInLine co (r # rs) w =
           (Cancelled,
            (others (changes r) w)\<lparr>watchers := toWatch # watchers (others (changes r) w)\<rparr>)"
  using WaitInLine_after_scan [OF assms(1,2)] assms(3,4) by (simp add: Let_def)

text \<open>
  C9 at the input where the code departs from it. The contender is second in the queue
  of three, and making the watcher fails. \<^verbatim>\<open>WaitForFile\<close> sends the error on the
  unbuffered channel before the call has reached its \<^verbatim>\<open>select\<close>, so the call is parked
  on that send: the done context is never looked at and the call does not return. The
  directory is as it was.
\<close>

theorem cancel_after_failed_setup_blocks:
  "WaitInLine contender
     [quiet\<lparr>watcher_setup := NewWatcherFails (Err ''too many open files''), sel := TakeDone\<rparr>]
     queue3 = (Blocked, queue3)"
  by (simp add: wait_cycle_def os_ReadDir_def others_def rank_loop_second await_def
      WaitForFile_def quiet_def queue3_def contender_fields)

text \<open>
  The directory path \<^verbatim>\<open>./q\<close>, which is not clean. The coordinator's recorded path is
  the one that \<^verbatim>\<open>CreateWaitFile\<close> records for a file of the directory, and the scans do
  not find it: \<^verbatim>\<open>CutInLine\<close> removes every entry, the caller's own file among them, and
  \<^verbatim>\<open>WaitInLine\<close> waits on the empty path although the caller's file is the first.
\<close>

lemma dir_part_dot_q: "dir_part ''./q'' = ''q/''"
  by (simp add: dir_part_def clean_elems_def clean_step_def)

lemma CutInLine_unclean_dir:
  "CutInLine \<lparr>Dir = ''./q'', FilePath = joinPath ''./q'' ''b''\<rparr>
     \<lparr>wdir = ''./q'', names = [''b'', ''c'', ''a''], unreadable = None, deny = [],
        watchers = []\<rparr> =
     (None, \<lparr>wdir = ''./q'', names = [], unreadable = None, deny = [], watchers = []\<rparr>)"
  by (simp add: CutInLine_def os_ReadDir_def os_Remove_def joinPath_def path_Join_valid
      valid_name_def dir_part_dot_q)

lemma WaitInLine_unclean_dir:
  "WaitInLine \<lparr>Dir = ''./q'', FilePath = joinPath ''./q'' ''a''\<rparr> [quiet]
     \<lparr>wdir = ''./q'', names = [''b'', ''c'', ''a''], unreadable = None, deny = [],
        watchers = []\<rparr> =
     (Blocked, \<lparr>wdir = ''./q'', names = [''b'', ''c'', ''a''], unreadable = None, deny = [],
        watchers = [[]]\<rparr>)"
proof -
  have "rank_loop \<lparr>Dir = ''./q'', FilePath = joinPath ''./q'' ''a''\<rparr> [''a'', ''b'', ''c''] 0 [] =
      ToWatch []"
    by (rule rank_loop_absent)
      (simp add: joinPath_def path_Join_valid valid_name_def dir_part_dot_q)
  then show ?thesis
    by (simp add: wait_cycle_def os_ReadDir_def others_def await_def WaitForFile_def
        goroutine_def quiet_def)
qed

subsection \<open>The goroutine of WaitForFile\<close>

text \<open>
  C3, as the code has it. For the notifications that the goroutine receives from the
  open events channel, it sends \<^verbatim>\<open>nil\<close> once for each notification that names the watched
  path and has the removal bit set, and it sends nothing for a notification that names
  another path or is not a removal. Its loop does not end after a send, so the number of
  values sent is the number of such notifications, not one.
\<close>

theorem goroutine_events:
  "goroutine p (map (\<lambda>e. Events (Recv e)) evs) =
     map (\<lambda>e. None)
       (filter (\<lambda>e. Name e = p \<and> Op e AND fsnotify_Remove = fsnotify_Remove) evs)"
  by (induction evs) (simp_all add: goroutine_def)

text \<open>
  Four notifications in the watched directory: a removal of another file, a write to the
  watched file, and two removals of the watched file, the second with another bit set
  as well. Only the last two are passed on.
\<close>

theorem goroutine_events_witness:
  "goroutine ''/tmp/q/queuer-10-5''
     (map (\<lambda>e. Events (Recv e))
        [\<lparr>Name = ''/tmp/q/queuer-20-7'', Op = 4\<rparr>, \<lparr>Name = ''/tmp/q/queuer-10-5'', Op = 2\<rparr>,
         \<lparr>Name = ''/tmp/q/queuer-10-5'', Op = 4\<rparr>, \<lparr>Name = ''/tmp/q/queuer-10-5'', Op = 12\<rparr>]) =
     [None, None]"
  using goroutine_events [of "''/tmp/q/queuer-10-5''"
      "[\<lparr>Name = ''/tmp/q/queuer-20-7'', Op = 4\<rparr>, \<lparr>Name = ''/tmp/q/queuer-10-5'', Op = 2\<rparr>,
        \<lparr>Name = ''/tmp/q/queuer-10-5'', Op = 4\<rparr>, \<lparr>Name = ''/tmp/q/queuer-10-5'', Op = 12\<rparr>]"]
  by (simp add: fsnotify_Remove_def)

text \<open>
  C3, as it is stated, fails: a watched file that is removed, made again and removed
  again while the watcher is open gives two removal notifications, and the goroutine
  sends two events, not exactly one.
\<close>

theorem goroutine_sends_twice:
  "goroutine ''/tmp/q/queuer-10-5''
     [Events (Recv \<lparr>Name = ''/tmp/q/queuer-10-5'', Op = 4\<rparr>),
      Events (Recv \<lparr>Name = ''/tmp/q/queuer-10-5'', Op = 4\<rparr>)] = [None, None]"
  by (simp add: goroutine_def fsnotify_Remove_def)

subsection \<open>The names of wait files\<close>

lemma digits_length_pos: "0 < length (digits n)"
  by (subst digits.simps) simp

lemma digits_single: "length (digits n) = Suc 0 \<longleftrightarrow> n < 10"
  using digits_length_pos [of "n div 10"]
  by (subst digits.simps) auto

lemma digit_char_less:
  "a < 10 \<Longrightarrow> b < 10 \<Longrightarrow> (char_of (48 + a :: nat) < char_of (48 + b :: nat)) = (a < b)"
  by (simp add: less_char_def)

lemma less_append_same_length:
  fixes xs ys :: "'a::linorder list"
  assumes "xs < ys" "length xs = length ys"
  shows "xs @ u < ys @ v"
  using assms by (simp add: list_less_def lexord_sufI)

lemma less_append_left:
  fixes u v :: "'a::linorder list"
  shows "u < v \<Longrightarrow> xs @ u < xs @ v"
  by (simp add: list_less_def lexord_append_leftI)

lemma div_mod_less:
  fixes a b :: nat
  assumes "a < b" "\<not> a div 10 < b div 10"
  shows "a div 10 = b div 10 \<and> a mod 10 < b mod 10"
proof -
  have "a div 10 \<le> b div 10" using assms(1) by (simp add: div_le_mono)
  with assms(2) have eq: "a div 10 = b div 10" by simp
  have "10 * (a div 10) + a mod 10 < 10 * (b div 10) + b mod 10"
    using assms(1) by (simp only: mult_div_mod_eq)
  then have "10 * (b div 10) + a mod 10 < 10 * (b div 10) + b mod 10"
    by (simp only: eq)
  then have "a mod 10 < b mod 10"
    by (simp only: add_less_cancel_left)
  with eq show ?thesis by (simp only: simp_thms)
qed

text \<open>Decimal numerals of the same length are ordered as the numbers are.\<close>

lemma digits_less:
  "a < b \<Longrightarrow> length (digits a) = length (digits b) \<Longrightarrow> digits a < digits b"
proof (induction a arbitrary: b rule: digits.induct)
  case (1 a)
  show ?case
  proof (cases "a < 10")
    case True
    then have "length (digits a) = Suc 0" by (simp add: digits_single)
    with "1.prems" have b: "b < 10" by (metis digits_single)
    have "digits a = [char_of (48 + a)]" "digits b = [char_of (48 + b)]"
      using True b by (simp_all add: digits.simps [of a] digits.simps [of b])
    with True b "1.prems"(1) show ?thesis by (simp add: digit_char_less)
  next
    case False
    then have a: "digits a = digits (a div 10) @ [char_of (48 + a mod 10)]"
      by (simp add: digits.simps [of a])
    from False "1.prems"(1) have "\<not> b < 10" by simp
    then have b: "digits b = digits (b div 10) @ [char_of (48 + b mod 10)]"
      by (simp add: digits.simps [of b])
    from a b "1.prems"(2) have len: "length (digits (a div 10)) = length (digits (b div 10))"
      by simp
    show ?thesis
    proof (cases "a div 10 < b div 10")
      case True
      from "1.IH" [OF False True len] len show ?thesis
        unfolding a b by (rule less_append_same_length)
    next
      case False
      with "1.prems"(1) have eq: "a div 10 = b div 10" and m: "a mod 10 < b mod 10"
        using div_mod_less [of a b] by simp_all
      have "[char_of (48 + a mod 10)] < [char_of (48 + b mod 10)]"
        using m by (simp add: digit_char_less)
      then show ?thesis unfolding a b eq by (rule less_append_left)
    qed
  qed
qed

lemma digit_not_star: "n < 10 \<Longrightarrow> char_of (48 + n :: nat) \<noteq> CHR ''*''"
proof
  assume n: "n < 10" and "char_of (48 + n) = CHR ''*''"
  then have "(of_char (char_of (48 + n)) :: nat) = of_char CHR ''*''" by simp
  with n show False by simp
qed

lemma digits_no_star: "CHR ''*'' \<notin> set (digits n)"
proof (induction n rule: digits.induct)
  case (1 n)
  show ?case
  proof (cases "n < 10")
    case True
    then show ?thesis
      using digit_not_star [of n] by (auto simp: digits.simps [of n])
  next
    case False
    with 1 show ?thesis
      using digit_not_star [of "n mod 10"] by (auto simp: digits.simps [of n])
  qed
qed

lemma prefixAndSuffix_star: "CHR ''*'' \<notin> set xs \<Longrightarrow> prefixAndSuffix (xs @ ''*'') = (xs, [])"
  by (simp add: prefixAndSuffix_def)

lemma tempName_namePattern:
  "tempName (namePattern t) r = ''queuer-'' @ Sprintf_d t @ ''-'' @ r"
proof -
  have "CHR ''*'' \<notin> set (''queuer-'' @ Sprintf_d t @ ''-'')"
    by (simp add: Sprintf_d_def digits_no_star)
  from prefixAndSuffix_star [OF this] show ?thesis
    by (simp add: tempName_def namePattern_def)
qed

lemma tempName_less:
  assumes "0 \<le> t1" "t1 < t2" "length (Sprintf_d t1) = length (Sprintf_d t2)"
  shows "tempName (namePattern t1) r1 < tempName (namePattern t2) r2"
proof -
  from assms have d: "Sprintf_d t1 = digits (nat t1)" "Sprintf_d t2 = digits (nat t2)"
    by (simp_all add: Sprintf_d_def)
  from assms have lt: "nat t1 < nat t2" by simp
  from assms(3) have len: "length (digits (nat t1)) = length (digits (nat t2))"
    by (simp add: d)
  from lt len have "digits (nat t1) < digits (nat t2)"
    by (rule digits_less)
  from this len have "Sprintf_d t1 @ ''-'' @ r1 < Sprintf_d t2 @ ''-'' @ r2"
    unfolding d by (rule less_append_same_length)
  then have "''queuer-'' @ Sprintf_d t1 @ ''-'' @ r1 < ''queuer-'' @ Sprintf_d t2 @ ''-'' @ r2"
    by (rule less_append_left)
  then show ?thesis by (simp only: tempName_namePattern)
qed

lemma CreateWaitFile_Inr:
  "CreateWaitFile co t rnds w = Inr (co', w') \<Longrightarrow>
     \<exists>r. names w' = tempName (namePattern t) r # names w \<and>
         FilePath co' = joinPath (Dir co) (tempName (namePattern t) r)"
  by (auto simp: CreateWaitFile_def os_MkdirAll_def ioutil_TempFile_def
      split: if_splits option.splits sum.splits)

text \<open>Evaluating the decimal digits of a numeral.\<close>

lemma digits_numeral:
  "digits (numeral k) =
     (if numeral k < (10::nat) then [char_of (48 + numeral k :: nat)]
      else digits (numeral k div 10) @ [char_of (48 + numeral k mod 10 :: nat)])"
  by (rule digits.simps)

lemma digit_chars:
  "char_of (48::nat) = CHR ''0''" "char_of (49::nat) = CHR ''1''" "char_of (50::nat) = CHR ''2''"
  "char_of (51::nat) = CHR ''3''" "char_of (52::nat) = CHR ''4''" "char_of (53::nat) = CHR ''5''"
  "char_of (54::nat) = CHR ''6''" "char_of (55::nat) = CHR ''7''" "char_of (56::nat) = CHR ''8''"
  "char_of (57::nat) = CHR ''9''"
  by (simp_all add: char_of_eq_iff)

lemma digits_1: "digits (Suc 0) = ''1''"
  by (simp add: digits.simps [of "Suc 0"] digit_chars)

lemma Sprintf_d_examples:
  "Sprintf_d 999999999999999999 = ''999999999999999999''"
  "Sprintf_d 1000000000000000000 = ''1000000000000000000''"
  "Sprintf_d 1700000000000000000 = ''1700000000000000000''"
  "Sprintf_d 1700000000000000001 = ''1700000000000000001''"
  by (simp_all add: Sprintf_d_def digits_numeral digits_1 digit_chars)

text \<open>
  C6, as the code has it. The time is written with \<^verbatim>\<open>%d\<close>, without padding. For two
  wait files made at times \<open>t1 < t2\<close> that are not negative and are written with the
  same number of digits (every time from September 2001 to the end of the \<^verbatim>\<open>int64\<close>
  range has nineteen), the name of the first sorts strictly before the name of the
  second, whatever the random suffixes are.
\<close>

theorem CreateWaitFile_names_ordered:
  assumes "CreateWaitFile co1 t1 rnds1 w1 = Inr (co1', w1')"
    and "CreateWaitFile co2 t2 rnds2 w2 = Inr (co2', w2')"
    and "0 \<le> t1" and "t1 < t2" and "length (Sprintf_d t1) = length (Sprintf_d t2)"
  shows "\<exists>n1 n2. names w1' = n1 # names w1 \<and> names w2' = n2 # names w2 \<and>
           FilePath co1' = joinPath (Dir co1) n1 \<and> FilePath co2' = joinPath (Dir co2) n2 \<and>
           n1 < n2"
proof -
  from CreateWaitFile_Inr [OF assms(1)] obtain r1 where
    1: "names w1' = tempName (namePattern t1) r1 # names w1"
       "FilePath co1' = joinPath (Dir co1) (tempName (namePattern t1) r1)" by blast
  from CreateWaitFile_Inr [OF assms(2)] obtain r2 where
    2: "names w2' = tempName (namePattern t2) r2 # names w2"
       "FilePath co2' = joinPath (Dir co2) (tempName (namePattern t2) r2)" by blast
  have "tempName (namePattern t1) r1 < tempName (namePattern t2) r2"
    using assms(3-5) by (rule tempName_less)
  with 1 2 show ?thesis by blast
qed

text \<open>
  Two wait files made one nanosecond apart in an empty directory, with the same random
  suffix.
\<close>

theorem CreateWaitFile_names_ordered_witness:
  "CreateWaitFile stranger 1700000000000000000 [''42''] (queue3\<lparr>names := []\<rparr>) =
     Inr (stranger\<lparr>FilePath := ''/tmp/q/queuer-1700000000000000000-42''\<rparr>,
          queue3\<lparr>names := [''queuer-1700000000000000000-42'']\<rparr>) \<and>
   CreateWaitFile stranger 1700000000000000001 [''42'']
       (queue3\<lparr>names := [''queuer-1700000000000000000-42'']\<rparr>) =
     Inr (stranger\<lparr>FilePath := ''/tmp/q/queuer-1700000000000000001-42''\<rparr>,
          queue3\<lparr>names := [''queuer-1700000000000000001-42'', ''queuer-1700000000000000000-42'']\<rparr>) \<and>
   length (Sprintf_d 1700000000000000000) = length (Sprintf_d 1700000000000000001) \<and>
   ''queuer-1700000000000000000-42'' < ''queuer-1700000000000000001-42''"
proof -
  have c1: "CreateWaitFile stranger 1700000000000000000 [''42''] (queue3\<lparr>names := []\<rparr>) =
     Inr (stranger\<lparr>FilePath := ''/tmp/q/queuer-1700000000000000000-42''\<rparr>,
          queue3\<lparr>names := [''queuer-1700000000000000000-42'']\<rparr>)"
    by (simp add: CreateWaitFile_def os_MkdirAll_def ioutil_TempFile_def tempName_namePattern
        Sprintf_d_examples joinPath_def stranger_def queue3_def)
  have c2: "CreateWaitFile stranger 1700000000000000001 [''42'']
       (queue3\<lparr>names := [''queuer-1700000000000000000-42'']\<rparr>) =
     Inr (stranger\<lparr>FilePath := ''/tmp/q/queuer-1700000000000000001-42''\<rparr>,
          queue3\<lparr>names := [''queuer-1700000000000000001-42'', ''queuer-1700000000000000000-42'']\<rparr>)"
    by (simp add: CreateWaitFile_def os_MkdirAll_def ioutil_TempFile_def tempName_namePattern
        Sprintf_d_examples joinPath_def stranger_def queue3_def)
  have h3: "(0::int) \<le> 1700000000000000000" by simp
  have h4: "(1700000000000000000::int) < 1700000000000000001" by simp
  have h5: "length (Sprintf_d 1700000000000000000) = length (Sprintf_d 1700000000000000001)"
    by (simp add: Sprintf_d_examples)
  from CreateWaitFile_names_ordered [OF c1 c2 h3 h4 h5]
  have "''queuer-1700000000000000000-42'' < ''queuer-1700000000000000001-42''"
    by (simp add: queue3_def)
  with c1 c2 h5 show ?thesis by simp
qed

text \<open>
  C6, as it is stated, fails where the number of digits changes. A wait file made at
  \<open>999999999999999999\<close> (eighteen digits) and one made a nanosecond later (nineteen
  digits) are listed in the opposite order: the later file comes first.
\<close>

theorem CreateWaitFile_names_misordered:
  "CreateWaitFile stranger 999999999999999999 [''1''] (queue3\<lparr>names := []\<rparr>) =
     Inr (stranger\<lparr>FilePath := ''/tmp/q/queuer-999999999999999999-1''\<rparr>,
          queue3\<lparr>names := [''queuer-999999999999999999-1'']\<rparr>) \<and>
   CreateWaitFile stranger 1000000000000000000 [''1'']
       (queue3\<lparr>names := [''queuer-999999999999999999-1'']\<rparr>) =
     Inr (stranger\<lparr>FilePath := ''/tmp/q/queuer-1000000000000000000-1''\<rparr>,
          queue3\<lparr>names := [''queuer-1000000000000000000-1'', ''queuer-999999999999999999-1'']\<rparr>) \<and>
   os_ReadDir ''/tmp/q''
       (queue3\<lparr>names := [''queuer-1000000000000000000-1'', ''queuer-999999999999999999-1'']\<rparr>) =
     Inr [''queuer-1000000000000000000-1'', ''queuer-999999999999999999-1''] \<and>
   ''queuer-1000000000000000000-1'' < ''queuer-999999999999999999-1''"
  by (simp add: CreateWaitFile_def os_MkdirAll_def ioutil_TempFile_def tempName_namePattern
      Sprintf_d_examples joinPath_def os_ReadDir_def stranger_def queue3_def)

end
